theory Spec2Isabelle
  imports Main
begin

section \<open>Errors\<close>

text \<open>
  Every exception the Python code can raise on the paths modelled below is a value of
  \<open>error\<close>; a function that can raise returns \<open>error + 'a\<close>, with \<open>Inl\<close> the exception.
  \<^item> \<open>MalformedTime\<close>: the \<^verbatim>\<open>ValueError\<close> of the tuple unpacking
    \<^verbatim>\<open>hour, period = time_code.split(" ")\<close> or of \<^verbatim>\<open>int(...)\<close>;
  \<^item> \<open>OutOfRangeTime\<close>: \<^verbatim>\<open>ValueError("Time code is outside the allowed range ...")\<close>;
  \<^item> \<open>UnknownWeekday\<close>: \<^verbatim>\<open>ValueError(f"Invalid week day: ...")\<close>;
  \<^item> \<open>IndexError\<close>: a list subscript out of range;
  \<^item> \<open>NoBestAssignment\<close>: the \<^verbatim>\<open>TypeError\<close> of \<^verbatim>\<open>enumerate(None)\<close> in
    \<^verbatim>\<open>map_assignments\<close>, raised when no best assignment was retained;
  \<^item> \<open>UnfilledEntry\<close>: the \<^verbatim>\<open>TypeError\<close> of \<^verbatim>\<open>list_of_instructor_prefs[None]\<close> in
    \<^verbatim>\<open>map_assignments\<close>.
\<close>

datatype error =
    MalformedTime
  | OutOfRangeTime
  | UnknownWeekday
  | IndexError
  | NoBestAssignment
  | UnfilledEntry

section \<open>Python string primitives\<close>

text \<open>
  A \<open>char\<close> stands for one code point of a Python string, below 256; strings with
  higher code points are outside the model.

  \<^verbatim>\<open>str.isspace\<close> on one character, which is what \<^verbatim>\<open>str.strip()\<close> removes: tab,
  line feed, vertical tab, form feed, carriage return, the four separators
  \<open>0x1c\<close>..\<open>0x1f\<close>, the space, next line (\<open>0x85\<close>) and the no-break space (\<open>0xa0\<close>).
\<close>

definition py_isspace :: "char \<Rightarrow> bool" where
  "py_isspace c = (c \<in> set [CHR 0x09, CHR 0x0A, CHR 0x0B, CHR 0x0C, CHR 0x0D,
                             CHR 0x1C, CHR 0x1D, CHR 0x1E, CHR 0x1F, CHR 0x20,
                             CHR 0x85, CHR 0xA0])"

text \<open>\<^verbatim>\<open>s.strip()\<close>: drop the whitespace at both ends.\<close>

definition strip :: "string \<Rightarrow> string" where
  "strip s = rev (dropWhile py_isspace (rev (dropWhile py_isspace s)))"

text \<open>
  \<^verbatim>\<open>s.split(sep)\<close> with an explicit one-character separator: every occurrence of the
  separator cuts, empty pieces are kept, and the result is never empty.
\<close>

fun split_on :: "char \<Rightarrow> string \<Rightarrow> string list" where
  "split_on sep [] = [[]]"
| "split_on sep (c # cs) =
     (if c = sep then [] # split_on sep cs
      else (case split_on sep cs of
              [] \<Rightarrow> [[c]]
            | w # ws \<Rightarrow> (c # w) # ws))"

definition is_digit :: "char \<Rightarrow> bool" where
  "is_digit c = (c \<in> set ''0123456789'')"

definition digit_val :: "char \<Rightarrow> nat" where
  "digit_val c = of_char c - 48"

text \<open>
  The digit part of a decimal integer literal as \<^verbatim>\<open>int(str)\<close> reads it: one or more
  digits, where single underscores may stand between two digits. The flag says whether
  the character before was a digit.
\<close>

fun parse_digits :: "bool \<Rightarrow> nat \<Rightarrow> string \<Rightarrow> nat option" where
  "parse_digits after_digit acc [] = (if after_digit then Some acc else None)"
| "parse_digits after_digit acc (c # cs) =
     (if is_digit c then parse_digits True (10 * acc + digit_val c) cs
      else if c = CHR ''_'' \<and> after_digit then parse_digits False acc cs
      else None)"

text \<open>
  The whitespace \<^verbatim>\<open>int(s)\<close> skips at both ends of a string: the six ASCII
  characters of C's \<^verbatim>\<open>isspace\<close> (tab to carriage return, and the space), and the
  whitespace above the ASCII range, which the conversion first turns into spaces. The
  separators \<open>0x1c\<close>..\<open>0x1f\<close> are not skipped: \<^verbatim>\<open>int("\x1c9")\<close> raises.
\<close>

definition int_isspace :: "char \<Rightarrow> bool" where
  "int_isspace c = (c \<in> set [CHR 0x09, CHR 0x0A, CHR 0x0B, CHR 0x0C, CHR 0x0D, CHR 0x20,
                              CHR 0x85, CHR 0xA0])"

definition int_strip :: "string \<Rightarrow> string" where
  "int_strip s = rev (dropWhile int_isspace (rev (dropWhile int_isspace s)))"

text \<open>
  \<^verbatim>\<open>int(s)\<close> for a string, base 10: surrounding whitespace is dropped, one sign is
  allowed, the digits follow; a literal of more than 4300 digits (the default of
  \<^verbatim>\<open>sys.set_int_max_str_digits\<close>; sign and underscores do not count) is refused.
  Every failure raises \<^verbatim>\<open>ValueError\<close> (here \<open>None\<close>).
\<close>

definition py_int :: "string \<Rightarrow> int option" where
  "py_int s =
     (case int_strip s of
        [] \<Rightarrow> None
      | c # cs \<Rightarrow>
          let body = (if c = CHR ''-'' \<or> c = CHR ''+'' then cs else c # cs) in
          if length (filter is_digit body) > 4300 then None
          else if c = CHR ''-'' then map_option (\<lambda>n. - int n) (parse_digits False 0 body)
          else map_option int (parse_digits False 0 body))"

text \<open>\<^verbatim>\<open>str(n)\<close> for an integer, as the f-string formats it.\<close>

fun str_nat :: "nat \<Rightarrow> string" where
  "str_nat n =
     (if n < 10 then [''0123456789'' ! n]
      else str_nat (n div 10) @ [''0123456789'' ! (n mod 10)])"

definition str_int :: "int \<Rightarrow> string" where
  "str_int i = (if i < 0 then CHR ''-'' # str_nat (nat (- i)) else str_nat (nat i))"

section \<open>The time-slot encoder (session.py, instructor_pref.py)\<close>

text \<open>
  \<^verbatim>\<open>Session.remap_time_code\<close> and \<^verbatim>\<open>InstructorPref.remap_time_code\<close> have the same
  body, statement for statement; one definition stands for both methods.
\<close>

definition days_mapping :: "string \<rightharpoonup> int" where
  "days_mapping =
     [''Monday'' \<mapsto> 0, ''Tuesday'' \<mapsto> 1, ''Wednesday'' \<mapsto> 2, ''Thursday'' \<mapsto> 3,
      ''Friday'' \<mapsto> 4, ''Saturday'' \<mapsto> 5, ''Sunday'' \<mapsto> 6]"

text \<open>The conversion to a 24-hour hour: the \<^verbatim>\<open>if\<close>/\<^verbatim>\<open>elif\<close> on the period.\<close>

definition to_24_hour :: "int \<Rightarrow> string \<Rightarrow> int" where
  "to_24_hour hour period =
     (if period = ''PM'' \<and> hour \<noteq> 12 then hour + 12
      else if period = ''AM'' \<and> hour = 12 then 0
      else hour)"

text \<open>
  \<^verbatim>\<open>hour, period = time_code.split(" ")\<close> followed by
  \<^verbatim>\<open>hour = int(hour.split(":")[0])\<close>: the hour as written and the period marker.
\<close>

definition parse_time_code :: "string \<Rightarrow> error + (int \<times> string)" where
  "parse_time_code time_code =
     (case split_on CHR '' '' time_code of
        [hour, period] \<Rightarrow>
          (case py_int (hd (split_on CHR '':'' hour)) of
             None \<Rightarrow> Inl MalformedTime
           | Some h \<Rightarrow> Inr (h, period))
      | _ \<Rightarrow> Inl MalformedTime)"

text \<open>
  The two components of the code, before they are joined into the string: the day code
  and the hour code. The range check comes before the weekday lookup, as in the source.
\<close>

definition slot_components :: "string \<Rightarrow> string \<Rightarrow> error + (int \<times> int)" where
  "slot_components time_code week_day =
     (let week_day' = strip week_day in
      case parse_time_code time_code of
        Inl e \<Rightarrow> Inl e
      | Inr (h, period) \<Rightarrow>
          let hour = to_24_hour h period in
          if hour < 7 \<or> hour > 19 then Inl OutOfRangeTime
          else
            let hour_code = hour - 7 in
            (case days_mapping week_day' of
               None \<Rightarrow> Inl UnknownWeekday
             | Some day_code \<Rightarrow> Inr (day_code, hour_code)))"

text \<open>\<^verbatim>\<open>return f"{day_code}_{hour_code}"\<close>\<close>

definition remap_time_code :: "string \<Rightarrow> string \<Rightarrow> error + string" where
  "remap_time_code time_code week_day =
     (case slot_components time_code week_day of
        Inl e \<Rightarrow> Inl e
      | Inr (day_code, hour_code) \<Rightarrow> Inr (str_int day_code @ ''_'' @ str_int hour_code))"

section \<open>Catalog entries\<close>

text \<open>
  The two classes. \<open>encoded_start_time_code\<close> is computed once, in the constructor, from
  the start time and the weekday. The attributes \<^verbatim>\<open>instructor_pref\<close> and
  \<^verbatim>\<open>coordinates\<close> of a session are set to \<^verbatim>\<open>None\<close> and never read or
  written again; the record leaves them out.
\<close>

record Session =
  start_time_code :: string
  end_time_code :: string
  week_day :: string
  encoded_start_time_code :: string

record InstructorPref =
  name :: string
  uid :: string
  week_day :: string
  start_time_code :: string
  end_time_code :: string
  encoded_start_time_code :: string

definition Session_init :: "string \<Rightarrow> string \<Rightarrow> string \<Rightarrow> error + Session" where
  "Session_init wd start_tc end_tc =
     (case remap_time_code start_tc wd of
        Inl e \<Rightarrow> Inl e
      | Inr code \<Rightarrow>
          Inr \<lparr>Session.start_time_code = start_tc, Session.end_time_code = end_tc,
               Session.week_day = wd, Session.encoded_start_time_code = code\<rparr>)"

definition InstructorPref_init ::
  "string \<Rightarrow> string \<Rightarrow> string \<Rightarrow> string \<Rightarrow> string \<Rightarrow> error + InstructorPref" where
  "InstructorPref_init u n wd start_tc end_tc =
     (case remap_time_code start_tc wd of
        Inl e \<Rightarrow> Inl e
      | Inr code \<Rightarrow>
          Inr \<lparr>name = n, uid = u, InstructorPref.week_day = wd,
               InstructorPref.start_time_code = start_tc,
               InstructorPref.end_time_code = end_tc,
               InstructorPref.encoded_start_time_code = code\<rparr>)"

section \<open>The candidate generator (scheduler.py)\<close>

text \<open>
  An assignment list holds, per session position, the index of the chosen preference or
  \<open>None\<close>. Indices come from \<^verbatim>\<open>range(len(list_of_instructor_prefs))\<close>, so they are
  natural numbers.
\<close>

type_synonym assignments = "nat option list"

text \<open>
  \<^verbatim>\<open>try_assign_instructor\<close> returns the instructor's uid when the two encoded start
  time codes are equal, and \<^verbatim>\<open>None\<close> otherwise.
\<close>

definition try_assign_instructor :: "InstructorPref \<Rightarrow> Session \<Rightarrow> string option" where
  "try_assign_instructor instructor_pref session =
     (if InstructorPref.encoded_start_time_code instructor_pref
           = Session.encoded_start_time_code session
      then Some (uid instructor_pref)
      else None)"

text \<open>
  The truth value Python gives the result in \<^verbatim>\<open>if success and ...\<close>: \<^verbatim>\<open>None\<close> and
  the empty string are false, every other string is true.
\<close>

definition truthy :: "string option \<Rightarrow> bool" where
  "truthy r = (case r of None \<Rightarrow> False | Some s \<Rightarrow> s \<noteq> [])"

text \<open>
  What \<^verbatim>\<open>random.shuffle\<close> leaves in \<^verbatim>\<open>list_of_randomized_instructor_pref_indices\<close>
  is a parameter of the model: some arrangement of \<open>0, ..., n - 1\<close> without repetition.
\<close>

definition is_shuffle :: "nat \<Rightarrow> nat list \<Rightarrow> bool" where
  "is_shuffle n indices = (distinct indices \<and> set indices = set [0..<n])"

text \<open>
  The inner loop, for one session: scan the shuffled indices; the first index whose
  preference matches and which is not yet in \<open>session_assignments\<close> is the result
  (\<^verbatim>\<open>break\<close>); \<open>None\<close> when the scan ends without one.
\<close>

fun scan_instructor_prefs ::
  "InstructorPref list \<Rightarrow> Session \<Rightarrow> assignments \<Rightarrow> nat list \<Rightarrow> error + nat option" where
  "scan_instructor_prefs list_of_instructor_prefs session session_assignments [] = Inr None"
| "scan_instructor_prefs list_of_instructor_prefs session session_assignments (idx # rest) =
     (if idx < length list_of_instructor_prefs then
        (let instructor_pref = list_of_instructor_prefs ! idx;
             success = try_assign_instructor instructor_pref session
         in if truthy success \<and> Some idx \<notin> set session_assignments then Inr (Some idx)
            else scan_instructor_prefs list_of_instructor_prefs session session_assignments rest)
      else Inl IndexError)"

text \<open>The outer loop over the sessions, appending one entry per session.\<close>

fun assign_sessions ::
  "InstructorPref list \<Rightarrow> nat list \<Rightarrow> Session list \<Rightarrow> assignments \<Rightarrow> error + assignments" where
  "assign_sessions list_of_instructor_prefs indices [] session_assignments =
     Inr session_assignments"
| "assign_sessions list_of_instructor_prefs indices (session # rest) session_assignments =
     (case scan_instructor_prefs list_of_instructor_prefs session session_assignments indices of
        Inl e \<Rightarrow> Inl e
      | Inr entry \<Rightarrow>
          assign_sessions list_of_instructor_prefs indices rest (session_assignments @ [entry]))"

text \<open>
  \<^verbatim>\<open>calculate_session_assignments\<close>; the last argument is the shuffled index list.
  The parameter \<open>replicates\<close> is received and not used.
\<close>

definition calculate_session_assignments ::
  "Session list \<Rightarrow> InstructorPref list \<Rightarrow> int \<Rightarrow> nat list \<Rightarrow> error + assignments" where
  "calculate_session_assignments list_of_session list_of_instructor_prefs replicates indices =
     assign_sessions list_of_instructor_prefs indices list_of_session []"

section \<open>Scoring and retention of the best candidate\<close>

text \<open>
  The scoring loop of \<^verbatim>\<open>update_best_session_assignment\<close>, over the positions of the
  candidate: 5 off for an unfilled entry; 2 on when the entry and the one before it are
  both filled and their preferences agree on uid and week day. The catalog lookups raise
  \<^verbatim>\<open>IndexError\<close> out of range.
\<close>

fun score_loop :: "InstructorPref list \<Rightarrow> assignments \<Rightarrow> nat list \<Rightarrow> int \<Rightarrow> error + int" where
  "score_loop list_of_instructor_prefs candidate [] score = Inr score"
| "score_loop list_of_instructor_prefs candidate (idx # rest) score =
     (case candidate ! idx of
        None \<Rightarrow> score_loop list_of_instructor_prefs candidate rest (score - 5)
      | Some instructor_idx \<Rightarrow>
          if idx > 0 then
            (case candidate ! (idx - 1) of
               None \<Rightarrow> score_loop list_of_instructor_prefs candidate rest score
             | Some prev_idx \<Rightarrow>
                 if prev_idx < length list_of_instructor_prefs then
                   if instructor_idx < length list_of_instructor_prefs then
                     (let prev_instructor_pref = list_of_instructor_prefs ! prev_idx;
                          curr_instructor_pref = list_of_instructor_prefs ! instructor_idx
                      in if uid curr_instructor_pref = uid prev_instructor_pref
                            \<and> InstructorPref.week_day curr_instructor_pref
                                = InstructorPref.week_day prev_instructor_pref
                         then score_loop list_of_instructor_prefs candidate rest (score + 2)
                         else score_loop list_of_instructor_prefs candidate rest score)
                   else Inl IndexError
                 else Inl IndexError)
          else score_loop list_of_instructor_prefs candidate rest score)"

definition candidate_score :: "InstructorPref list \<Rightarrow> assignments \<Rightarrow> error + int" where
  "candidate_score list_of_instructor_prefs candidate =
     score_loop list_of_instructor_prefs candidate [0..<length candidate] 0"

text \<open>
  \<^verbatim>\<open>update_best_session_assignment\<close>: the candidate and its score are returned when
  the score is greater than \<open>best_score\<close> or when \<open>best_session_assignments\<close> is
  \<^verbatim>\<open>None\<close>; the retained pair otherwise.
\<close>

definition update_best_session_assignment ::
  "InstructorPref list \<Rightarrow> assignments option \<Rightarrow> int \<Rightarrow> assignments
     \<Rightarrow> error + (assignments option \<times> int)" where
  "update_best_session_assignment list_of_instructor_prefs best_session_assignments best_score
       candidate_session_assignments =
     (case candidate_score list_of_instructor_prefs candidate_session_assignments of
        Inl e \<Rightarrow> Inl e
      | Inr score \<Rightarrow>
          if score > best_score \<or> best_session_assignments = None
          then Inr (Some candidate_session_assignments, score)
          else Inr (best_session_assignments, best_score))"

section \<open>Projection and the search loop\<close>

text \<open>One line of the output table, as the f-string of \<^verbatim>\<open>map_assignments\<close> builds it.\<close>

definition formatted_session :: "Session \<Rightarrow> InstructorPref \<Rightarrow> string" where
  "formatted_session s p =
     Session.week_day s @ [CHR 0x09] @ Session.start_time_code s @ '' - ''
       @ Session.end_time_code s @ [CHR 0x09] @ uid p @ [CHR 0x09] @ name p @ [CHR 0x0A]"

fun map_rows ::
  "Session list \<Rightarrow> InstructorPref list \<Rightarrow> (nat \<times> nat option) list \<Rightarrow> string \<Rightarrow> error + string"
  where
  "map_rows list_of_session list_of_instructor_prefs [] mappings = Inr mappings"
| "map_rows list_of_session list_of_instructor_prefs ((idx, instructor_idx) # rest) mappings =
     (if idx < length list_of_session then
        (case instructor_idx of
           None \<Rightarrow> Inl UnfilledEntry
         | Some i \<Rightarrow>
             if i < length list_of_instructor_prefs then
               map_rows list_of_session list_of_instructor_prefs rest
                 (mappings @ formatted_session (list_of_session ! idx)
                                                (list_of_instructor_prefs ! i))
             else Inl IndexError)
      else Inl IndexError)"

text \<open>
  \<^verbatim>\<open>map_assignments\<close>: \<^verbatim>\<open>enumerate(best_session_assignments)\<close> raises when the
  argument is \<^verbatim>\<open>None\<close>.
\<close>

definition map_assignments ::
  "Session list \<Rightarrow> InstructorPref list \<Rightarrow> assignments option \<Rightarrow> error + string" where
  "map_assignments list_of_session list_of_instructor_prefs best_session_assignments =
     (case best_session_assignments of
        None \<Rightarrow> Inl NoBestAssignment
      | Some best \<Rightarrow>
          map_rows list_of_session list_of_instructor_prefs (enumerate 0 best) [])"

text \<open>
  The loop \<^verbatim>\<open>for epoch in range(epochs)\<close> of \<^verbatim>\<open>scheduler\<close>, on the list of epoch
  numbers still to run and the retained pair. \<open>shuffled epoch\<close> is the shuffled index
  list drawn in that epoch.
\<close>

fun run_epochs ::
  "Session list \<Rightarrow> InstructorPref list \<Rightarrow> int \<Rightarrow> (nat \<Rightarrow> nat list) \<Rightarrow> nat list
     \<Rightarrow> assignments option \<times> int \<Rightarrow> error + (assignments option \<times> int)" where
  "run_epochs list_of_session list_of_instructor_prefs replicates shuffled [] st = Inr st"
| "run_epochs list_of_session list_of_instructor_prefs replicates shuffled (epoch # rest)
       (best_session_assignments, best_score) =
     (case calculate_session_assignments list_of_session list_of_instructor_prefs replicates
             (shuffled epoch) of
        Inl e \<Rightarrow> Inl e
      | Inr candidate_session_assignments \<Rightarrow>
          (case update_best_session_assignment list_of_instructor_prefs
                  best_session_assignments best_score candidate_session_assignments of
             Inl e \<Rightarrow> Inl e
           | Inr st \<Rightarrow>
               run_epochs list_of_session list_of_instructor_prefs replicates shuffled rest st))"

text \<open>
  The retained pair when the loop ends: it starts from \<open>best_score = 0\<close> and
  \<open>best_session_assignments = None\<close>. \<^verbatim>\<open>range(epochs)\<close> is empty for \<open>epochs \<le> 0\<close>.
\<close>

definition search_loop ::
  "int \<Rightarrow> int \<Rightarrow> Session list \<Rightarrow> InstructorPref list \<Rightarrow> (nat \<Rightarrow> nat list)
     \<Rightarrow> error + (assignments option \<times> int)" where
  "search_loop epochs replicates list_of_session list_of_instructor_prefs shuffled =
     run_epochs list_of_session list_of_instructor_prefs replicates shuffled
       [0..<nat epochs] (None, 0)"

text \<open>
  \<^verbatim>\<open>scheduler\<close>, from the two parsed catalogs on: the result is the text written to
  \<^verbatim>\<open>output_schedules.txt\<close>, or the exception that ends the run. \<open>max_attempts\<close> is
  received and not used.
\<close>

definition scheduler ::
  "int \<Rightarrow> int \<Rightarrow> int \<Rightarrow> Session list \<Rightarrow> InstructorPref list \<Rightarrow> (nat \<Rightarrow> nat list)
     \<Rightarrow> error + string" where
  "scheduler epochs replicates max_attempts list_of_session list_of_instructor_prefs shuffled =
     (case search_loop epochs replicates list_of_session list_of_instructor_prefs shuffled of
        Inl e \<Rightarrow> Inl e
      | Inr (best_session_assignments, best_score) \<Rightarrow>
          map_assignments list_of_session list_of_instructor_prefs best_session_assignments)"

section \<open>Clock times as the specification words them\<close>

text \<open>
  The specification's reading of a clock time \<^verbatim>\<open>H:MM AM|PM\<close>, written independently
  of the encoder: the value of the decimal digits of the hour; the 24-hour hour (12 AM
  is 0, 12 PM stays 12, every other PM hour adds 12); the seven weekday names in the
  order of their indices; and the decimal texts of the numbers 0 to 12, in a table, which
  are all the day codes and hour offsets a slot code can show.
\<close>

definition spec_decimal_value :: "string \<Rightarrow> nat" where
  "spec_decimal_value digits = foldl (\<lambda>n c. 10 * n + (of_char c - of_char CHR ''0'')) 0 digits"

definition spec_hour_24 :: "nat \<Rightarrow> bool \<Rightarrow> nat" where
  "spec_hour_24 h pm = (if pm then (if h = 12 then 12 else h + 12)
                        else (if h = 12 then 0 else h))"

definition spec_weekday_names :: "string list" where
  "spec_weekday_names =
     [''Monday'', ''Tuesday'', ''Wednesday'', ''Thursday'', ''Friday'', ''Saturday'',
      ''Sunday'']"

definition spec_decimal_table :: "(nat \<times> string) list" where
  "spec_decimal_table =
     [(0, ''0''), (1, ''1''), (2, ''2''), (3, ''3''), (4, ''4''), (5, ''5''), (6, ''6''),
      (7, ''7''), (8, ''8''), (9, ''9''), (10, ''10''), (11, ''11''), (12, ''12'')]"

definition spec_decimal_text :: "nat \<Rightarrow> string" where
  "spec_decimal_text n = (case map_of spec_decimal_table n of None \<Rightarrow> [] | Some t \<Rightarrow> t)"

text \<open>The clock time with the given hour digits, minutes and period marker.\<close>

definition spec_clock_time :: "string \<Rightarrow> string \<Rightarrow> bool \<Rightarrow> string" where
  "spec_clock_time hour_digits minutes pm =
     hour_digits @ '':'' @ minutes @ '' '' @ (if pm then ''PM'' else ''AM'')"

section \<open>The score as the specification words it\<close>

text \<open>
  The specification's scoring rule, written independently of the loop: a position
  \<open>idx > 0\<close> is rewarded when the entries at \<open>idx - 1\<close> and \<open>idx\<close> are both filled
  and the two preferences have the same instructor id and the same weekday; the score is
  \<open>-5\<close> times the number of unfilled entries plus \<open>2\<close> times the number of rewarded
  positions.
\<close>

definition spec_rewarded :: "InstructorPref list \<Rightarrow> assignments \<Rightarrow> nat \<Rightarrow> bool" where
  "spec_rewarded prefs candidate idx =
     (idx > 0 \<and>
      (case (candidate ! (idx - 1), candidate ! idx) of
         (Some prev_idx, Some curr_idx) \<Rightarrow>
            uid (prefs ! curr_idx) = uid (prefs ! prev_idx)
          \<and> InstructorPref.week_day (prefs ! curr_idx) = InstructorPref.week_day (prefs ! prev_idx)
       | _ \<Rightarrow> False))"

definition spec_score :: "InstructorPref list \<Rightarrow> assignments \<Rightarrow> int" where
  "spec_score prefs candidate =
     - 5 * int (length (filter (\<lambda>entry. entry = None) candidate))
     + 2 * int (length (filter (spec_rewarded prefs candidate) [0..<length candidate]))"


section \<open>Example catalogs\<close>

text \<open>
  Two sessions on Monday, 9 to 10 and 10 to 11, and two preference entries of instructor
  \<open>I1\<close> for the same two slots; a catalog whose only entry has an empty uid; and two
  fixed outcomes of the shuffle.
\<close>

definition example_sessions :: "Session list" where
  "example_sessions =
     [\<lparr>Session.start_time_code = ''9:00 AM'', Session.end_time_code = ''10:00 AM'',
       Session.week_day = ''Monday'', Session.encoded_start_time_code = ''0_2''\<rparr>,
      \<lparr>Session.start_time_code = ''10:00 AM'', Session.end_time_code = ''11:00 AM'',
       Session.week_day = ''Monday'', Session.encoded_start_time_code = ''0_3''\<rparr>]"

definition example_prefs :: "InstructorPref list" where
  "example_prefs =
     [\<lparr>name = ''A'', uid = ''I1'', InstructorPref.week_day = ''Monday'',
       InstructorPref.start_time_code = ''9:00 AM'',
       InstructorPref.end_time_code = ''10:00 AM'',
       InstructorPref.encoded_start_time_code = ''0_2''\<rparr>,
      \<lparr>name = ''A'', uid = ''I1'', InstructorPref.week_day = ''Monday'',
       InstructorPref.start_time_code = ''10:00 AM'',
       InstructorPref.end_time_code = ''11:00 AM'',
       InstructorPref.encoded_start_time_code = ''0_3''\<rparr>]"

definition example_prefs_no_uid :: "InstructorPref list" where
  "example_prefs_no_uid =
     [\<lparr>name = ''A'', uid = [], InstructorPref.week_day = ''Monday'',
       InstructorPref.start_time_code = ''9:00 AM'',
       InstructorPref.end_time_code = ''10:00 AM'',
       InstructorPref.encoded_start_time_code = ''0_2''\<rparr>]"

definition example_shuffled :: "nat \<Rightarrow> nat list" where
  "example_shuffled epoch = [1, 0]"

definition example_shuffled_empty :: "nat \<Rightarrow> nat list" where
  "example_shuffled_empty epoch = []"


section \<open>The time-slot encoder: accepted hours\<close>

lemmas codec_defs =
  parse_time_code_def py_int_def int_strip_def int_isspace_def strip_def py_isspace_def
  is_digit_def digit_val_def to_24_hour_def Let_def

lemma parse_7am: "parse_time_code ''7:00 AM'' = Inr (7, ''AM'')"
  by (simp add: codec_defs)

lemma parse_7pm: "parse_time_code ''7:00 PM'' = Inr (7, ''PM'')"
  by (simp add: codec_defs)

lemma parse_6am: "parse_time_code ''6:00 AM'' = Inr (6, ''AM'')"
  by (simp add: codec_defs)

lemma parse_8pm: "parse_time_code ''8:00 PM'' = Inr (8, ''PM'')"
  by (simp add: codec_defs)

lemma slot_components_in_range:
  assumes "parse_time_code time_code = Inr (h, period)"
    and "7 \<le> to_24_hour h period" and "to_24_hour h period \<le> 19"
  shows "slot_components time_code weekday =
           (case days_mapping (strip weekday) of
              None \<Rightarrow> Inl UnknownWeekday
            | Some day_code \<Rightarrow> Inr (day_code, to_24_hour h period - 7))"
  using assms by (simp add: slot_components_def Let_def)

lemma slot_components_out_of_range:
  assumes "parse_time_code time_code = Inr (h, period)"
    and "to_24_hour h period < 7 \<or> 19 < to_24_hour h period"
  shows "slot_components time_code weekday = Inl OutOfRangeTime"
  using assms by (auto simp add: slot_components_def Let_def)

subsection \<open>Splitting, stripping and reading the hour\<close>

lemma split_on_not_Nil: "split_on sep s \<noteq> []"
  by (induction s) (auto split: list.splits)

lemma split_on_no_sep: "sep \<notin> set s \<Longrightarrow> split_on sep s = [s]"
  by (induction s) auto

lemma split_on_first:
  "sep \<notin> set xs \<Longrightarrow> split_on sep (xs @ sep # ys) = xs # split_on sep ys"
  by (induction xs) auto

lemma dropWhile_hd: "xs \<noteq> [] \<Longrightarrow> \<not> P (hd xs) \<Longrightarrow> dropWhile P (xs @ ys) = xs @ ys"
  by (cases xs) simp_all

lemma strip_generic:
  assumes "\<forall>c\<in>set pre. P c" and "\<forall>c\<in>set post. P c"
    and "n \<noteq> []" and "\<not> P (hd n)" and "\<not> P (last n)"
  shows "rev (dropWhile P (rev (dropWhile P (pre @ n @ post)))) = n"
proof -
  have "dropWhile P (pre @ n @ post) = dropWhile P (n @ post)"
    using assms(1) by (intro dropWhile_append2) simp
  also have "\<dots> = n @ post"
    using assms(3,4) by (rule dropWhile_hd)
  finally have a: "dropWhile P (pre @ n @ post) = n @ post" .
  have "dropWhile P (rev (n @ post)) = dropWhile P (rev post @ rev n)"
    by simp
  also have "\<dots> = dropWhile P (rev n)"
    using assms(2) by (intro dropWhile_append2) simp
  also have "\<dots> = dropWhile P (rev n @ [])"
    by simp
  also have "\<dots> = rev n @ []"
    using assms(3,5) by (intro dropWhile_hd) (simp_all add: hd_rev)
  finally have "dropWhile P (rev (n @ post)) = rev n"
    by simp
  with a show ?thesis
    by simp
qed

lemma strip_surrounded:
  assumes "\<forall>c\<in>set pre. py_isspace c" and "\<forall>c\<in>set post. py_isspace c"
    and "n \<noteq> []" and "\<not> py_isspace (hd n)" and "\<not> py_isspace (last n)"
  shows "strip (pre @ n @ post) = n"
  unfolding strip_def by (rule strip_generic [OF assms])

lemma parse_digits_all_digits:
  "\<forall>c\<in>set ds. c \<in> set ''0123456789'' \<Longrightarrow> ds \<noteq> [] \<or> after_digit
   \<Longrightarrow> parse_digits after_digit acc ds
         = Some (foldl (\<lambda>n c. 10 * n + (of_char c - of_char CHR ''0'')) acc ds)"
proof (induction ds arbitrary: after_digit acc)
  case Nil
  then show ?case by simp
next
  case (Cons c cs)
  from Cons.prems(1) have c: "is_digit c" and cs: "\<forall>c\<in>set cs. c \<in> set ''0123456789''"
    by (simp_all add: is_digit_def)
  from Cons.IH [OF cs, of True "10 * acc + digit_val c"] c show ?case
    by (simp add: digit_val_def)
qed

lemma digit_not_space:
  "c \<in> set ''0123456789'' \<Longrightarrow>
     \<not> int_isspace c \<and> c \<noteq> CHR ''-'' \<and> c \<noteq> CHR ''+'' \<and> c \<noteq> CHR '':'' \<and> c \<noteq> CHR '' ''"
  by (auto simp add: int_isspace_def)

lemma int_strip_digits:
  assumes "ds \<noteq> []" and "\<forall>c\<in>set ds. c \<in> set ''0123456789''"
  shows "int_strip ds = ds"
proof -
  from assms(1,2) have "hd ds \<in> set ''0123456789''" and "last ds \<in> set ''0123456789''"
    by simp_all
  then have h: "\<not> int_isspace (hd ds)" and l: "\<not> int_isspace (last ds)"
    using digit_not_space by blast+
  from strip_generic [of "[]" int_isspace "[]" ds] assms(1) h l
  show s: "int_strip ds = ds"
    by (simp add: int_strip_def)
qed

lemma parse_digits_value:
  assumes "ds \<noteq> []" and "\<forall>c\<in>set ds. c \<in> set ''0123456789''"
  shows "parse_digits False 0 ds = Some (spec_decimal_value ds)"
  using parse_digits_all_digits [OF assms(2), of False 0] assms(1)
  by (simp add: spec_decimal_value_def)

lemma digit_count_within_limit:
  assumes "length ds \<le> 4300"
  shows "\<not> length (filter is_digit ds) > 4300"
proof -
  have "length (filter is_digit ds) \<le> length ds"
    by (rule length_filter_le)
  from this assms have "length (filter is_digit ds) \<le> 4300"
    by (rule order_trans)
  then show ?thesis
    by (simp only: not_less)
qed

lemma py_int_unsigned:
  assumes "c \<noteq> CHR ''-''" "c \<noteq> CHR ''+''" "int_strip (c # cs) = c # cs"
    "\<not> length (filter is_digit (c # cs)) > 4300"
    "parse_digits False 0 (c # cs) = Some v"
  shows "py_int (c # cs) = Some (int v)"
proof -
  from assms(1,2) have body: "(if c = CHR ''-'' \<or> c = CHR ''+'' then cs else c # cs) = c # cs"
    by simp
  show ?thesis
    unfolding py_int_def assms(3) list.case Let_def body
    by (simp only: assms(4) assms(1) assms(5) if_False option.map)
qed

lemma py_int_digits:
  assumes "ds \<noteq> []" and "\<forall>c\<in>set ds. c \<in> set ''0123456789''" and "length ds \<le> 4300"
  shows "py_int ds = Some (int (spec_decimal_value ds))"
proof -
  obtain c cs where ds: "ds = c # cs"
    using assms(1) by (cases ds) auto
  from assms(2) have "c \<in> set ''0123456789''"
    unfolding ds by simp
  from digit_not_space [OF this] have sg: "c \<noteq> CHR ''-''" "c \<noteq> CHR ''+''"
    by simp_all
  from sg int_strip_digits [OF assms(1,2)] digit_count_within_limit [OF assms(3)]
    parse_digits_value [OF assms(1,2)]
  show ?thesis
    unfolding ds by (rule py_int_unsigned)
qed

lemma parse_spec_clock_time:
  assumes "hs \<noteq> []" and "\<forall>c\<in>set hs. c \<in> set ''0123456789''" and "length hs \<le> 4300"
    and "CHR '' '' \<notin> set mm"
  shows "parse_time_code (spec_clock_time hs mm pm)
           = Inr (int (spec_decimal_value hs), if pm then ''PM'' else ''AM'')"
proof -
  have d: "\<And>c. c \<in> set hs \<Longrightarrow> c \<noteq> CHR '':'' \<and> c \<noteq> CHR '' ''"
    using assms(2) digit_not_space by blast
  then have colon: "CHR '':'' \<notin> set hs" and space: "CHR '' '' \<notin> set (hs @ CHR '':'' # mm)"
    using assms(4) by auto
  have tc: "spec_clock_time hs mm pm
              = (hs @ CHR '':'' # mm) @ CHR '' '' # (if pm then ''PM'' else ''AM'')"
    by (simp add: spec_clock_time_def)
  have "split_on CHR '' '' (if pm then ''PM'' else ''AM'') = [if pm then ''PM'' else ''AM'']"
    by (rule split_on_no_sep) simp
  with split_on_first [OF space, of "if pm then ''PM'' else ''AM''"]
  have s: "split_on CHR '' '' (spec_clock_time hs mm pm)
             = [hs @ CHR '':'' # mm, if pm then ''PM'' else ''AM'']"
    unfolding tc by simp
  have h: "hd (split_on CHR '':'' (hs @ CHR '':'' # mm)) = hs"
    by (simp add: split_on_first [OF colon])
  show ?thesis
    unfolding parse_time_code_def s
    by (simp only: list.case h py_int_digits [OF assms(1,2,3)] option.case)
qed

lemma to_24_hour_spec:
  "to_24_hour (int h) (if pm then ''PM'' else ''AM'') = int (spec_hour_24 h pm)"
  by (simp add: to_24_hour_def spec_hour_24_def)

lemma spec_weekday_names_checked:
  "list_all (\<lambda>d. spec_weekday_names ! d \<noteq> []
                 \<and> \<not> py_isspace (hd (spec_weekday_names ! d))
                 \<and> \<not> py_isspace (last (spec_weekday_names ! d))
                 \<and> days_mapping (spec_weekday_names ! d) = Some (int d)) [0..<7]"
  by code_simp

lemma days_mapping_spec_weekday:
  assumes "d < 7" and "\<forall>c\<in>set pre. py_isspace c" and "\<forall>c\<in>set post. py_isspace c"
  shows "days_mapping (strip (pre @ spec_weekday_names ! d @ post)) = Some (int d)"
proof -
  from assms(1) have "d \<in> set [0..<7]"
    by simp
  with spec_weekday_names_checked
  have n: "spec_weekday_names ! d \<noteq> [] \<and> \<not> py_isspace (hd (spec_weekday_names ! d))
           \<and> \<not> py_isspace (last (spec_weekday_names ! d))
           \<and> days_mapping (spec_weekday_names ! d) = Some (int d)"
    unfolding list_all_iff by blast
  with strip_surrounded [OF assms(2,3), of "spec_weekday_names ! d"] show ?thesis
    by simp
qed

lemma spec_decimal_table_checked:
  "list_all (\<lambda>n. str_int (int n) = spec_decimal_text n) [0..<13]"
  by code_simp

lemma str_int_spec_decimal_text: "n \<le> 12 \<Longrightarrow> str_int (int n) = spec_decimal_text n"
proof -
  assume "n \<le> 12"
  then have "n \<in> set [0..<13]"
    by simp
  with spec_decimal_table_checked show ?thesis
    unfolding list_all_iff by blast
qed

lemma slot_components_spec:
  assumes "hs \<noteq> []" and "\<forall>c\<in>set hs. c \<in> set ''0123456789''" and "length hs \<le> 4300"
    and "CHR '' '' \<notin> set mm"
  shows "slot_components (spec_clock_time hs mm pm) weekday =
           (if 7 \<le> spec_hour_24 (spec_decimal_value hs) pm
               \<and> spec_hour_24 (spec_decimal_value hs) pm \<le> 19
            then (case days_mapping (strip weekday) of
                    None \<Rightarrow> Inl UnknownWeekday
                  | Some day_code \<Rightarrow>
                      Inr (day_code, int (spec_hour_24 (spec_decimal_value hs) pm) - 7))
            else Inl OutOfRangeTime)"
proof (cases "7 \<le> spec_hour_24 (spec_decimal_value hs) pm
               \<and> spec_hour_24 (spec_decimal_value hs) pm \<le> 19")
  case True
  then have "7 \<le> to_24_hour (int (spec_decimal_value hs)) (if pm then ''PM'' else ''AM'')"
    and "to_24_hour (int (spec_decimal_value hs)) (if pm then ''PM'' else ''AM'') \<le> 19"
    unfolding to_24_hour_spec by simp_all
  from slot_components_in_range [OF parse_spec_clock_time [OF assms] this, of weekday] True
  show ?thesis
    unfolding to_24_hour_spec by simp
next
  case False
  then have "to_24_hour (int (spec_decimal_value hs)) (if pm then ''PM'' else ''AM'') < 7
             \<or> 19 < to_24_hour (int (spec_decimal_value hs)) (if pm then ''PM'' else ''AM'')"
    unfolding to_24_hour_spec by auto
  from slot_components_out_of_range [OF parse_spec_clock_time [OF assms] this, of weekday]
  have r: "slot_components (spec_clock_time hs mm pm) weekday = Inl OutOfRangeTime" .
  show ?thesis
    by (simp only: r False if_False)
qed

lemma remap_time_code_spec:
  assumes "hs \<noteq> []" and "\<forall>c\<in>set hs. c \<in> set ''0123456789''" and "length hs \<le> 4300"
    and "CHR '' '' \<notin> set mm"
    and "7 \<le> spec_hour_24 (spec_decimal_value hs) pm"
    and "spec_hour_24 (spec_decimal_value hs) pm \<le> 19"
    and "d < 7" and "\<forall>c\<in>set pre. py_isspace c" and "\<forall>c\<in>set post. py_isspace c"
  shows "slot_components (spec_clock_time hs mm pm) (pre @ spec_weekday_names ! d @ post)
           = Inr (int d, int (spec_hour_24 (spec_decimal_value hs) pm - 7))"
    and "remap_time_code (spec_clock_time hs mm pm) (pre @ spec_weekday_names ! d @ post)
           = Inr (spec_decimal_text d @ ''_''
                    @ spec_decimal_text (spec_hour_24 (spec_decimal_value hs) pm - 7))"
proof -
  from assms(5) have i: "int (spec_hour_24 (spec_decimal_value hs) pm) - 7
                           = int (spec_hour_24 (spec_decimal_value hs) pm - 7)"
    by simp
  show c: "slot_components (spec_clock_time hs mm pm) (pre @ spec_weekday_names ! d @ post)
           = Inr (int d, int (spec_hour_24 (spec_decimal_value hs) pm - 7))"
    unfolding slot_components_spec [OF assms(1-4)]
      days_mapping_spec_weekday [OF assms(7-9)] i
    using assms(5,6) by simp
  from assms(7) have td: "str_int (int d) = spec_decimal_text d"
    by (intro str_int_spec_decimal_text) simp
  from assms(6) have th: "str_int (int (spec_hour_24 (spec_decimal_value hs) pm - 7))
          = spec_decimal_text (spec_hour_24 (spec_decimal_value hs) pm - 7)"
    by (intro str_int_spec_decimal_text) simp
  show "remap_time_code (spec_clock_time hs mm pm) (pre @ spec_weekday_names ! d @ post)
           = Inr (spec_decimal_text d @ ''_''
                    @ spec_decimal_text (spec_hour_24 (spec_decimal_value hs) pm - 7))"
    unfolding remap_time_code_def c by (simp add: td th)
qed

lemma remap_time_code_out_of_range_iff:
  assumes "hs \<noteq> []" and "\<forall>c\<in>set hs. c \<in> set ''0123456789''" and "length hs \<le> 4300"
    and "CHR '' '' \<notin> set mm"
  shows "remap_time_code (spec_clock_time hs mm pm) weekday = Inl OutOfRangeTime
         \<longleftrightarrow> \<not> (7 \<le> spec_hour_24 (spec_decimal_value hs) pm
                \<and> spec_hour_24 (spec_decimal_value hs) pm \<le> 19)"
  unfolding remap_time_code_def slot_components_spec [OF assms]
  by (simp split: option.splits)

text \<open>
  Claim C3. The encoder accepts exactly the 24-hour hours 7 to 19. For every clock time
  \<^verbatim>\<open>H:MM AM|PM\<close> whose hour is written in decimal digits, with the 24-hour hour
  taken as the specification words it (12 AM is 0, 12 PM stays 12, every other PM hour
  adds 12): the encoder fails with \<open>OutOfRangeTime\<close> if and only if that hour is not in
  \<open>[7, 19]\<close>, whatever the weekday; and for an hour in \<open>[7, 19]\<close> and one of the seven
  weekday names, with whitespace around it or not, the code is the weekday index and
  the hour minus 7. In particular "7:00 AM" encodes to hour offset 0 and "7:00 PM" to
  hour offset 12, and "6:00 AM" and "8:00 PM" fail with \<open>OutOfRangeTime\<close>.
\<close>

theorem remap_time_code_accepts_7_to_19:
  "(hour_digits \<noteq> [] \<and> (\<forall>c\<in>set hour_digits. c \<in> set ''0123456789'')
      \<and> length hour_digits \<le> 4300 \<and> CHR '' '' \<notin> set minutes \<longrightarrow>
      (remap_time_code (spec_clock_time hour_digits minutes pm) weekday = Inl OutOfRangeTime
         \<longleftrightarrow> \<not> (7 \<le> spec_hour_24 (spec_decimal_value hour_digits) pm
                \<and> spec_hour_24 (spec_decimal_value hour_digits) pm \<le> 19))
      \<and> (7 \<le> spec_hour_24 (spec_decimal_value hour_digits) pm
           \<and> spec_hour_24 (spec_decimal_value hour_digits) pm \<le> 19
           \<and> d < 7 \<and> (\<forall>c\<in>set pre. py_isspace c) \<and> (\<forall>c\<in>set post. py_isspace c) \<longrightarrow>
             slot_components (spec_clock_time hour_digits minutes pm)
                 (pre @ spec_weekday_names ! d @ post)
               = Inr (int d, int (spec_hour_24 (spec_decimal_value hour_digits) pm - 7))
           \<and> remap_time_code (spec_clock_time hour_digits minutes pm)
                 (pre @ spec_weekday_names ! d @ post)
               = Inr (spec_decimal_text d @ ''_''
                      @ spec_decimal_text (spec_hour_24 (spec_decimal_value hour_digits) pm - 7))))
   \<and> (d < 7 \<and> (\<forall>c\<in>set pre. py_isspace c) \<and> (\<forall>c\<in>set post. py_isspace c) \<longrightarrow>
        slot_components ''7:00 AM'' (pre @ spec_weekday_names ! d @ post) = Inr (int d, 0)
      \<and> slot_components ''7:00 PM'' (pre @ spec_weekday_names ! d @ post) = Inr (int d, 12)
      \<and> remap_time_code ''7:00 AM'' (pre @ spec_weekday_names ! d @ post)
          = Inr (spec_decimal_text d @ ''_0'')
      \<and> remap_time_code ''7:00 PM'' (pre @ spec_weekday_names ! d @ post)
          = Inr (spec_decimal_text d @ ''_12''))
   \<and> slot_components ''6:00 AM'' weekday = Inl OutOfRangeTime
   \<and> slot_components ''8:00 PM'' weekday = Inl OutOfRangeTime
   \<and> remap_time_code ''6:00 AM'' weekday = Inl OutOfRangeTime
   \<and> remap_time_code ''8:00 PM'' weekday = Inl OutOfRangeTime"
proof (intro conjI impI)
  assume a: "hour_digits \<noteq> [] \<and> (\<forall>c\<in>set hour_digits. c \<in> set ''0123456789'')
      \<and> length hour_digits \<le> 4300 \<and> CHR '' '' \<notin> set minutes"
  then have h: "hour_digits \<noteq> []" "\<forall>c\<in>set hour_digits. c \<in> set ''0123456789''"
    "length hour_digits \<le> 4300" "CHR '' '' \<notin> set minutes"
    by blast+
  show "remap_time_code (spec_clock_time hour_digits minutes pm) weekday = Inl OutOfRangeTime
         \<longleftrightarrow> \<not> (7 \<le> spec_hour_24 (spec_decimal_value hour_digits) pm
                \<and> spec_hour_24 (spec_decimal_value hour_digits) pm \<le> 19)"
    by (rule remap_time_code_out_of_range_iff [OF h])
  assume b: "7 \<le> spec_hour_24 (spec_decimal_value hour_digits) pm
           \<and> spec_hour_24 (spec_decimal_value hour_digits) pm \<le> 19
           \<and> d < 7 \<and> (\<forall>c\<in>set pre. py_isspace c) \<and> (\<forall>c\<in>set post. py_isspace c)"
  then have r: "7 \<le> spec_hour_24 (spec_decimal_value hour_digits) pm"
    "spec_hour_24 (spec_decimal_value hour_digits) pm \<le> 19"
    "d < 7" "\<forall>c\<in>set pre. py_isspace c" "\<forall>c\<in>set post. py_isspace c"
    by blast+
  show "slot_components (spec_clock_time hour_digits minutes pm)
                 (pre @ spec_weekday_names ! d @ post)
               = Inr (int d, int (spec_hour_24 (spec_decimal_value hour_digits) pm - 7))"
    by (rule remap_time_code_spec(1) [OF h r])
  show "remap_time_code (spec_clock_time hour_digits minutes pm)
                 (pre @ spec_weekday_names ! d @ post)
               = Inr (spec_decimal_text d @ ''_''
                      @ spec_decimal_text (spec_hour_24 (spec_decimal_value hour_digits) pm - 7))"
    by (rule remap_time_code_spec(2) [OF h r])
next
  assume "d < 7 \<and> (\<forall>c\<in>set pre. py_isspace c) \<and> (\<forall>c\<in>set post. py_isspace c)"
  then have w: "d < 7" "\<forall>c\<in>set pre. py_isspace c" "\<forall>c\<in>set post. py_isspace c"
    by blast+
  have day: "days_mapping (strip (pre @ spec_weekday_names ! d @ post)) = Some (int d)"
    by (rule days_mapping_spec_weekday [OF w])
  from w(1) have t: "str_int (int d) = spec_decimal_text d"
    by (intro str_int_spec_decimal_text) simp
  have z: "str_int 0 = ''0''" "str_int 12 = ''12''"
    by (simp_all add: str_int_def)
  show am: "slot_components ''7:00 AM'' (pre @ spec_weekday_names ! d @ post) = Inr (int d, 0)"
    using slot_components_in_range [OF parse_7am, of "pre @ spec_weekday_names ! d @ post"]
    by (simp add: to_24_hour_def day)
  show pm: "slot_components ''7:00 PM'' (pre @ spec_weekday_names ! d @ post)
              = Inr (int d, 12)"
    using slot_components_in_range [OF parse_7pm, of "pre @ spec_weekday_names ! d @ post"]
    by (simp add: to_24_hour_def day)
  show "remap_time_code ''7:00 AM'' (pre @ spec_weekday_names ! d @ post)
          = Inr (spec_decimal_text d @ ''_0'')"
    unfolding remap_time_code_def am by (simp only: sum.case prod.case t z) simp
  show "remap_time_code ''7:00 PM'' (pre @ spec_weekday_names ! d @ post)
          = Inr (spec_decimal_text d @ ''_12'')"
    unfolding remap_time_code_def pm by (simp only: sum.case prod.case t z) simp
next
  show e6: "slot_components ''6:00 AM'' weekday = Inl OutOfRangeTime"
    by (rule slot_components_out_of_range [OF parse_6am]) (simp add: to_24_hour_def)
  show e8: "slot_components ''8:00 PM'' weekday = Inl OutOfRangeTime"
    by (rule slot_components_out_of_range [OF parse_8pm]) (simp add: to_24_hour_def)
  show "remap_time_code ''6:00 AM'' weekday = Inl OutOfRangeTime"
    by (simp add: remap_time_code_def e6)
  show "remap_time_code ''8:00 PM'' weekday = Inl OutOfRangeTime"
    by (simp add: remap_time_code_def e8)
qed

text \<open>
  The theorem at "12:30 PM" and "12:30 AM" (noon is hour 12 and encodes to offset 5,
  midnight is hour 0 and fails), on Sunday written with a space before and a no-break
  space after, and on a string that is no weekday.
\<close>

theorem remap_time_code_accepts_7_to_19_witness:
  "remap_time_code ''12:30 PM'' ('' '' @ ''Sunday'' @ [CHR 0xA0]) = Inr ''6_5''
   \<and> slot_components ''12:30 PM'' ('' '' @ ''Sunday'' @ [CHR 0xA0]) = Inr (6, 5)
   \<and> remap_time_code ''12:30 PM'' ''Someday'' \<noteq> Inl OutOfRangeTime
   \<and> remap_time_code ''12:30 AM'' ''Sunday'' = Inl OutOfRangeTime
   \<and> remap_time_code ''7:00 PM'' ('' '' @ ''Sunday'' @ [CHR 0xA0]) = Inr ''6_12''
   \<and> remap_time_code ''7:00 AM'' ('' '' @ ''Sunday'' @ [CHR 0xA0]) = Inr ''6_0''
   \<and> remap_time_code ''8:00 PM'' ''Sunday'' = Inl OutOfRangeTime"
proof -
  have h: "''12'' \<noteq> [] \<and> (\<forall>c\<in>set ''12''. c \<in> set ''0123456789'')
            \<and> length ''12'' \<le> 4300 \<and> CHR '' '' \<notin> set ''30''"
    by simp
  have v: "spec_decimal_value ''12'' = 12"
    by (simp add: spec_decimal_value_def)
  have r: "7 \<le> spec_hour_24 (spec_decimal_value ''12'') True
           \<and> spec_hour_24 (spec_decimal_value ''12'') True \<le> 19
           \<and> (6::nat) < 7 \<and> (\<forall>c\<in>set '' ''. py_isspace c)
           \<and> (\<forall>c\<in>set [CHR 0xA0]. py_isspace c)"
    by (simp add: v spec_hour_24_def py_isspace_def)
  have n: "\<not> (7 \<le> spec_hour_24 (spec_decimal_value ''12'') False
              \<and> spec_hour_24 (spec_decimal_value ''12'') False \<le> 19)"
    by (simp add: v spec_hour_24_def)
  have s: "spec_clock_time ''12'' ''30'' True = ''12:30 PM''"
    "spec_clock_time ''12'' ''30'' False = ''12:30 AM''"
    "spec_weekday_names ! 6 = ''Sunday''"
    "spec_decimal_text 6 = ''6''"
    "spec_decimal_text (spec_hour_24 (spec_decimal_value ''12'') True - 7) = ''5''"
    "int (spec_hour_24 (spec_decimal_value ''12'') True - 7) = 5"
    by (simp_all add: v spec_clock_time_def spec_weekday_names_def spec_decimal_text_def spec_decimal_table_def
          spec_hour_24_def)
  from remap_time_code_accepts_7_to_19
         [of "''12''" "''30''" True "''Someday''" 6 "'' ''" "[CHR 0xA0]"] h r
  have a: "remap_time_code ''12:30 PM'' ('' '' @ ''Sunday'' @ [CHR 0xA0]) = Inr ''6_5''
     \<and> slot_components ''12:30 PM'' ('' '' @ ''Sunday'' @ [CHR 0xA0]) = Inr (6, 5)
     \<and> remap_time_code ''12:30 PM'' ''Someday'' \<noteq> Inl OutOfRangeTime
     \<and> remap_time_code ''7:00 PM'' ('' '' @ ''Sunday'' @ [CHR 0xA0]) = Inr ''6_12''
     \<and> remap_time_code ''7:00 AM'' ('' '' @ ''Sunday'' @ [CHR 0xA0]) = Inr ''6_0''"
    unfolding s by simp
  from remap_time_code_accepts_7_to_19
         [of "''12''" "''30''" False "''Sunday''" 6 "'' ''" "[CHR 0xA0]"] h n
  have b: "remap_time_code ''12:30 AM'' ''Sunday'' = Inl OutOfRangeTime
     \<and> remap_time_code ''8:00 PM'' ''Sunday'' = Inl OutOfRangeTime"
    unfolding s by simp
  from a b show ?thesis
    by simp
qed

text \<open>
  Claim C4 says that the hour offset of every code the encoder produces lies in
  \<open>0..11\<close>, which is also what the comment above \<^verbatim>\<open>hour_code = hour - 7\<close> says
  ("Map the hour to the range 0-11"). The code at ("Monday", "7:00 PM"): the encoding
  succeeds and the hour offset is 12.
\<close>

theorem remap_time_code_seven_pm_is_12:
  "slot_components ''7:00 PM'' ''Monday'' = Inr (0, 12)
   \<and> remap_time_code ''7:00 PM'' ''Monday'' = Inr ''0_12''"
proof -
  have d: "days_mapping (strip ''Monday'') = Some 0"
    by (simp add: days_mapping_def strip_def py_isspace_def)
  have c: "slot_components ''7:00 PM'' ''Monday'' = Inr (0, 12)"
    using slot_components_in_range [OF parse_7pm, of "''Monday''"] d
    by (simp add: to_24_hour_def)
  show ?thesis
    by (simp add: c remap_time_code_def str_int_def)
qed

section \<open>The hyperparameters\<close>

lemma run_epochs_replicates:
  "run_epochs list_of_session list_of_instructor_prefs replicates shuffled epochs st
     = run_epochs list_of_session list_of_instructor_prefs replicates' shuffled epochs st"
proof (induction epochs arbitrary: st)
  case Nil
  show ?case by simp
next
  case (Cons epoch rest)
  obtain best best_score where st: "st = (best, best_score)"
    by (cases st)
  show ?case
    unfolding st
    by (simp add: calculate_session_assignments_def Cons.IH split: sum.splits)
qed

text \<open>
  Claim C8. With the catalogs and the shuffled index lists fixed, the candidate of a
  generation call, the pair retained by the search loop and the result of the scheduler
  are the same for all values of \<open>replicates\<close> and \<open>max_attempts\<close>.
\<close>

theorem hyperparameters_have_no_effect:
  "calculate_session_assignments list_of_session list_of_instructor_prefs replicates indices
     = calculate_session_assignments list_of_session list_of_instructor_prefs replicates' indices
   \<and> search_loop epochs replicates list_of_session list_of_instructor_prefs shuffled
     = search_loop epochs replicates' list_of_session list_of_instructor_prefs shuffled
   \<and> scheduler epochs replicates max_attempts list_of_session list_of_instructor_prefs shuffled
     = scheduler epochs replicates' max_attempts' list_of_session list_of_instructor_prefs
         shuffled"
proof -
  have c: "calculate_session_assignments list_of_session list_of_instructor_prefs replicates
             indices
           = calculate_session_assignments list_of_session list_of_instructor_prefs replicates'
               indices"
    by (simp add: calculate_session_assignments_def)
  have l: "search_loop epochs replicates list_of_session list_of_instructor_prefs shuffled
           = search_loop epochs replicates' list_of_session list_of_instructor_prefs shuffled"
    unfolding search_loop_def by (rule run_epochs_replicates)
  have s: "scheduler epochs replicates max_attempts list_of_session list_of_instructor_prefs
             shuffled
           = scheduler epochs replicates' max_attempts' list_of_session
               list_of_instructor_prefs shuffled"
    unfolding scheduler_def l by (rule refl)
  from c l s show ?thesis by blast
qed

section \<open>Zero epochs\<close>

text \<open>
  Claim C9. With \<open>epochs = 0\<close> no candidate is generated, the loop ends with no best
  assignment retained, and the projection of the scheduler fails with
  \<open>NoBestAssignment\<close>.
\<close>

theorem zero_epochs_no_best_assignment:
  "search_loop 0 replicates list_of_session list_of_instructor_prefs shuffled = Inr (None, 0)
   \<and> scheduler 0 replicates max_attempts list_of_session list_of_instructor_prefs shuffled
       = Inl NoBestAssignment"
  by (simp add: scheduler_def search_loop_def map_assignments_def)

section \<open>The candidate generator: lemmas\<close>

lemma example_sessions_init:
  "Session_init ''Monday'' ''9:00 AM'' ''10:00 AM'' = Inr (example_sessions ! 0)"
  "Session_init ''Monday'' ''10:00 AM'' ''11:00 AM'' = Inr (example_sessions ! 1)"
  by code_simp+

lemma example_prefs_init:
  "InstructorPref_init ''I1'' ''A'' ''Monday'' ''9:00 AM'' ''10:00 AM'' = Inr (example_prefs ! 0)"
  "InstructorPref_init ''I1'' ''A'' ''Monday'' ''10:00 AM'' ''11:00 AM'' = Inr (example_prefs ! 1)"
  "InstructorPref_init [] ''A'' ''Monday'' ''9:00 AM'' ''10:00 AM'' = Inr (example_prefs_no_uid ! 0)"
  by code_simp+


lemma is_shuffle_in_range: "is_shuffle n indices \<Longrightarrow> \<forall>idx\<in>set indices. idx < n"
  by (simp add: is_shuffle_def)

lemma scan_returns:
  "\<forall>idx\<in>set indices. idx < length prefs
   \<Longrightarrow> \<exists>entry. scan_instructor_prefs prefs session acc indices = Inr entry"
  by (induction indices) (simp_all add: Let_def)

lemma scan_Some:
  "scan_instructor_prefs prefs session acc indices = Inr (Some idx)
   \<Longrightarrow> idx \<in> set indices \<and> idx < length prefs
       \<and> truthy (try_assign_instructor (prefs ! idx) session)
       \<and> Some idx \<notin> set acc"
  by (induction indices) (auto simp add: Let_def split: if_splits)

lemma scan_None:
  "scan_instructor_prefs prefs session acc indices = Inr None
   \<Longrightarrow> \<forall>idx\<in>set indices.
         \<not> (truthy (try_assign_instructor (prefs ! idx) session) \<and> Some idx \<notin> set acc)"
  by (induction indices) (auto simp add: Let_def split: if_splits)

lemma truthy_try_assign:
  "truthy (try_assign_instructor p s)
   \<longleftrightarrow> InstructorPref.encoded_start_time_code p = Session.encoded_start_time_code s
       \<and> uid p \<noteq> []"
  by (simp add: truthy_def try_assign_instructor_def)

lemma assign_sessions_returns:
  "\<forall>idx\<in>set indices. idx < length prefs
   \<Longrightarrow> \<exists>r. assign_sessions prefs indices sessions acc = Inr r"
proof (induction sessions arbitrary: acc)
  case Nil
  show ?case by simp
next
  case (Cons s rest)
  from scan_returns [OF Cons.prems]
  obtain entry where e: "scan_instructor_prefs prefs s acc indices = Inr entry"
    by blast
  from Cons.IH [OF Cons.prems, of "acc @ [entry]"] show ?case
    by (simp add: e)
qed

lemma assign_sessions_entries:
  "assign_sessions prefs indices sessions acc = Inr r
   \<Longrightarrow> \<exists>new. r = acc @ new \<and> length new = length sessions
        \<and> (\<forall>j<length sessions. \<forall>idx. new ! j = Some idx \<longrightarrow>
              idx \<in> set indices \<and> idx < length prefs
            \<and> truthy (try_assign_instructor (prefs ! idx) (sessions ! j))
            \<and> Some idx \<notin> set acc \<and> Some idx \<notin> set (take j new))"
proof (induction sessions arbitrary: acc)
  case Nil
  then show ?case by simp
next
  case (Cons s rest)
  from Cons.prems obtain entry where
    e: "scan_instructor_prefs prefs s acc indices = Inr entry"
    and r: "assign_sessions prefs indices rest (acc @ [entry]) = Inr r"
    by (auto split: sum.splits)
  from Cons.IH [OF r] obtain new where
    n1: "r = (acc @ [entry]) @ new" and n2: "length new = length rest"
    and n3: "\<forall>j<length rest. \<forall>idx. new ! j = Some idx \<longrightarrow>
              idx \<in> set indices \<and> idx < length prefs
            \<and> truthy (try_assign_instructor (prefs ! idx) (rest ! j))
            \<and> Some idx \<notin> set (acc @ [entry]) \<and> Some idx \<notin> set (take j new)"
    by blast
  have "\<forall>j<length (s # rest). \<forall>idx. (entry # new) ! j = Some idx \<longrightarrow>
              idx \<in> set indices \<and> idx < length prefs
            \<and> truthy (try_assign_instructor (prefs ! idx) ((s # rest) ! j))
            \<and> Some idx \<notin> set acc \<and> Some idx \<notin> set (take j (entry # new))"
  proof (intro allI impI)
    fix j idx
    assume j: "j < length (s # rest)" and v: "(entry # new) ! j = Some idx"
    show "idx \<in> set indices \<and> idx < length prefs
            \<and> truthy (try_assign_instructor (prefs ! idx) ((s # rest) ! j))
            \<and> Some idx \<notin> set acc \<and> Some idx \<notin> set (take j (entry # new))"
    proof (cases j)
      case 0
      with v e have "scan_instructor_prefs prefs s acc indices = Inr (Some idx)"
        by simp
      from scan_Some [OF this] 0 show ?thesis by simp
    next
      case (Suc j')
      with j v have "j' < length rest" and "new ! j' = Some idx"
        by simp_all
      with n3 Suc show ?thesis by auto
    qed
  qed
  with n1 n2 show ?case
    by (intro exI [of _ "entry # new"]) simp
qed

lemma calculate_entries:
  assumes "\<forall>idx\<in>set indices. idx < length prefs"
  shows "\<exists>cand. calculate_session_assignments sessions prefs replicates indices = Inr cand
           \<and> length cand = length sessions
           \<and> (\<forall>j<length sessions. \<forall>idx. cand ! j = Some idx \<longrightarrow>
                 idx \<in> set indices \<and> idx < length prefs
               \<and> truthy (try_assign_instructor (prefs ! idx) (sessions ! j))
               \<and> Some idx \<notin> set (take j cand))"
proof -
  from assign_sessions_returns [OF assms, of sessions "[]"]
  obtain r where r: "assign_sessions prefs indices sessions [] = Inr r"
    by blast
  from assign_sessions_entries [OF r] show ?thesis
    by (auto simp add: calculate_session_assignments_def r)
qed

lemma distinct_filled:
  "(\<forall>j<length xs. xs ! j \<noteq> None \<longrightarrow> xs ! j \<notin> set (take j xs))
   \<Longrightarrow> distinct (filter (\<lambda>e. e \<noteq> None) xs)"
proof (induction xs rule: rev_induct)
  case Nil
  show ?case by simp
next
  case (snoc x xs)
  have "\<forall>j<length xs. xs ! j \<noteq> None \<longrightarrow> xs ! j \<notin> set (take j xs)"
  proof (intro allI impI)
    fix j assume j: "j < length xs" and n: "xs ! j \<noteq> None"
    from j have "j < length (xs @ [x])" and e: "(xs @ [x]) ! j = xs ! j"
      by (simp_all add: nth_append)
    with snoc.prems n have "(xs @ [x]) ! j \<notin> set (take j (xs @ [x]))"
      by metis
    with j e show "xs ! j \<notin> set (take j xs)"
      by simp
  qed
  from snoc.IH [OF this] have d: "distinct (filter (\<lambda>e. e \<noteq> None) xs)" .
  have "length xs < length (xs @ [x])" and "(xs @ [x]) ! length xs = x"
    by simp_all
  with snoc.prems have "x \<noteq> None \<longrightarrow> x \<notin> set (take (length xs) (xs @ [x]))"
    by metis
  then have "x \<noteq> None \<longrightarrow> x \<notin> set xs"
    by simp
  with d show ?case by auto
qed

section \<open>Scoring: lemmas\<close>

lemma score_loop_append:
  "score_loop prefs cand (xs @ ys) score =
     (case score_loop prefs cand xs score of
        Inl e \<Rightarrow> Inl e
      | Inr score' \<Rightarrow> score_loop prefs cand ys score')"
  by (induction xs arbitrary: score) (simp_all add: Let_def split: option.splits)

lemma score_loop_single:
  assumes "\<forall>idx. Some idx \<in> set cand \<longrightarrow> idx < length prefs" and "n < length cand"
  shows "score_loop prefs cand [n] score =
           Inr (score + (if cand ! n = None then - 5 else 0)
                      + (if spec_rewarded prefs cand n then 2 else 0))"
proof (cases "cand ! n")
  case None
  then show ?thesis by (simp add: spec_rewarded_def split: option.splits)
next
  case (Some curr_idx)
  show ?thesis
  proof (cases "n > 0")
    case False
    with Some show ?thesis by (simp add: spec_rewarded_def)
  next
    case True
    show ?thesis
    proof (cases "cand ! (n - 1)")
      case None
      with Some True show ?thesis by (simp add: spec_rewarded_def)
    next
      case prev: (Some prev_idx)
      from assms True have "cand ! (n - 1) \<in> set cand" and "cand ! n \<in> set cand"
        by simp_all
      with assms(1) Some prev have "prev_idx < length prefs" and "curr_idx < length prefs"
        by auto
      with Some prev True show ?thesis
        by (simp add: spec_rewarded_def Let_def)
    qed
  qed
qed

lemma score_loop_prefix:
  assumes "\<forall>idx. Some idx \<in> set cand \<longrightarrow> idx < length prefs"
  shows "n \<le> length cand \<Longrightarrow>
         score_loop prefs cand [0..<n] 0 =
           Inr (- 5 * int (length (filter (\<lambda>entry. entry = None) (take n cand)))
                + 2 * int (length (filter (spec_rewarded prefs cand) [0..<n])))"
proof (induction n)
  case 0
  show ?case by simp
next
  case (Suc n)
  then have n: "n < length cand" by simp
  then have t: "take (Suc n) cand = take n cand @ [cand ! n]"
    by (simp add: take_Suc_conv_app_nth)
  from Suc show ?case
    by (simp add: score_loop_append score_loop_single [OF assms n] t
             del: score_loop.simps)
qed

lemma candidate_score_eq:
  assumes "\<forall>idx. Some idx \<in> set cand \<longrightarrow> idx < length prefs"
  shows "candidate_score prefs cand = Inr (spec_score prefs cand)"
  using score_loop_prefix [OF assms, of "length cand"]
  by (simp add: candidate_score_def spec_score_def)

section \<open>The search loop: lemmas\<close>

lemma run_epochs_append:
  "run_epochs sessions prefs replicates shuffled (es @ es') st =
     (case run_epochs sessions prefs replicates shuffled es st of
        Inl e \<Rightarrow> Inl e
      | Inr st' \<Rightarrow> run_epochs sessions prefs replicates shuffled es' st')"
proof (induction es arbitrary: st)
  case Nil
  show ?case by simp
next
  case (Cons epoch rest)
  obtain best best_score where st: "st = (best, best_score)"
    by (cases st)
  show ?case
    unfolding st by (simp add: Cons.IH split: sum.splits)
qed

lemma search_loop_Suc:
  "search_loop (int (Suc k)) replicates sessions prefs shuffled =
     (case search_loop (int k) replicates sessions prefs shuffled of
        Inl e \<Rightarrow> Inl e
      | Inr (best, best_score) \<Rightarrow>
          (case calculate_session_assignments sessions prefs replicates (shuffled k) of
             Inl e \<Rightarrow> Inl e
           | Inr candidate \<Rightarrow>
               update_best_session_assignment prefs best best_score candidate))"
proof -
  have "nat (int (Suc k)) = Suc k" and "nat (int k) = k"
    by (rule nat_int)+
  then have u: "[0..<nat (int (Suc k))] = [0..<nat (int k)] @ [k]"
    by (simp only: upt_Suc) simp
  show ?thesis
    unfolding search_loop_def u run_epochs_append
    by (simp split: sum.splits prod.splits)
qed

lemma generated_candidate_scores:
  assumes "is_shuffle (length prefs) indices"
  shows "\<exists>candidate.
           calculate_session_assignments sessions prefs replicates indices = Inr candidate
         \<and> candidate_score prefs candidate = Inr (spec_score prefs candidate)"
proof -
  from calculate_entries [OF is_shuffle_in_range [OF assms], of sessions replicates]
  obtain candidate where
    c: "calculate_session_assignments sessions prefs replicates indices = Inr candidate"
    and l: "length candidate = length sessions"
    and e: "\<forall>j<length sessions. \<forall>idx. candidate ! j = Some idx \<longrightarrow> idx < length prefs"
    by blast
  have "\<forall>idx. Some idx \<in> set candidate \<longrightarrow> idx < length prefs"
    using e l by (auto simp add: in_set_conv_nth)
  from candidate_score_eq [OF this] c show ?thesis
    by blast
qed

lemma epoch_step:
  assumes "\<forall>k. is_shuffle (length prefs) (shuffled k)"
  shows "\<exists>best best_score candidate score.
           search_loop (int k) replicates sessions prefs shuffled = Inr (best, best_score)
         \<and> (best = None \<longleftrightarrow> k = 0)
         \<and> calculate_session_assignments sessions prefs replicates (shuffled k)
             = Inr candidate
         \<and> candidate_score prefs candidate = Inr score
         \<and> search_loop (int (Suc k)) replicates sessions prefs shuffled
             = Inr (if k = 0 \<or> best_score < score then (Some candidate, score)
                    else (best, best_score))"
proof (induction k)
  case 0
  from generated_candidate_scores [OF assms [rule_format, of 0], of sessions replicates]
  obtain candidate where
    c: "calculate_session_assignments sessions prefs replicates (shuffled 0) = Inr candidate"
    and s: "candidate_score prefs candidate = Inr (spec_score prefs candidate)"
    by blast
  have z: "search_loop (int 0) replicates sessions prefs shuffled = Inr (None, 0)"
    by (simp add: search_loop_def)
  have "search_loop (int (Suc 0)) replicates sessions prefs shuffled
          = Inr (Some candidate, spec_score prefs candidate)"
    unfolding search_loop_Suc z
    by (simp add: c s update_best_session_assignment_def)
  with z c s show ?case
    by simp
next
  case (Suc k)
  then obtain best best_score where
    n: "search_loop (int (Suc k)) replicates sessions prefs shuffled = Inr (best, best_score)"
    and b: "best \<noteq> None"
    by (auto split: if_splits)
  from generated_candidate_scores [OF assms [rule_format, of "Suc k"], of sessions replicates]
  obtain candidate where
    c: "calculate_session_assignments sessions prefs replicates (shuffled (Suc k))
          = Inr candidate"
    and s: "candidate_score prefs candidate = Inr (spec_score prefs candidate)"
    by blast
  have "search_loop (int (Suc (Suc k))) replicates sessions prefs shuffled
          = Inr (if best_score < spec_score prefs candidate
                 then (Some candidate, spec_score prefs candidate)
                 else (best, best_score))"
    unfolding search_loop_Suc [of "Suc k"] n
    using b by (simp add: c s update_best_session_assignment_def)
  with n b c s show ?case
    by simp
qed

lemma search_loop_mono:
  assumes "\<forall>k. is_shuffle (length prefs) (shuffled k)" and "1 \<le> k"
  shows "\<exists>best best_score best' best_score'.
           search_loop (int k) replicates sessions prefs shuffled = Inr (best, best_score)
         \<and> search_loop (int (k + d)) replicates sessions prefs shuffled
             = Inr (best', best_score')
         \<and> best_score \<le> best_score'"
proof (induction d)
  case 0
  from epoch_step [OF assms(1), of k replicates sessions] show ?case
    by auto
next
  case (Suc d)
  then obtain best best_score best' best_score' where
    a: "search_loop (int k) replicates sessions prefs shuffled = Inr (best, best_score)"
    and b: "search_loop (int (k + d)) replicates sessions prefs shuffled
              = Inr (best', best_score')"
    and le: "best_score \<le> best_score'"
    by blast
  from epoch_step [OF assms(1), of "k + d" replicates sessions] b assms(2)
  obtain candidate score where
    "search_loop (int (Suc (k + d))) replicates sessions prefs shuffled
       = Inr (if best_score' < score then (Some candidate, score) else (best', best_score'))"
    by auto
  then have "\<exists>best'' best_score''.
           search_loop (int (k + Suc d)) replicates sessions prefs shuffled
             = Inr (best'', best_score'') \<and> best_score' \<le> best_score''"
    by (cases "best_score' < score") simp_all
  with a le show ?case
    by force
qed

lemma example_shuffled_is_shuffle: "\<forall>k. is_shuffle (length example_prefs) (example_shuffled k)"
proof
  fix k
  have "is_shuffle (length example_prefs) [1, 0]"
    by code_simp
  then show "is_shuffle (length example_prefs) (example_shuffled k)"
    by (simp add: example_shuffled_def)
qed

section \<open>The candidate generator: eligibility and exclusion\<close>

text \<open>
  Claim C6. Every generation call on a shuffle of the preference indices returns a
  candidate with one entry per session, and every filled entry is the index of a
  preference whose encoded start time code equals that of the session at that position.
  So a preference with another code is never assigned.
\<close>

theorem assigned_preference_has_session_slot:
  assumes "is_shuffle (length list_of_instructor_prefs) indices"
  shows "\<exists>candidate.
           calculate_session_assignments list_of_session list_of_instructor_prefs replicates
             indices = Inr candidate
         \<and> length candidate = length list_of_session
         \<and> (\<forall>j<length list_of_session. \<forall>idx. candidate ! j = Some idx \<longrightarrow>
               idx < length list_of_instructor_prefs
             \<and> InstructorPref.encoded_start_time_code (list_of_instructor_prefs ! idx)
                 = Session.encoded_start_time_code (list_of_session ! j))"
proof -
  from calculate_entries [OF is_shuffle_in_range [OF assms], of list_of_session replicates]
  show ?thesis
    unfolding truthy_try_assign by blast
qed

text \<open>
  The theorem on the example catalogs with the shuffle \<open>[1, 0]\<close>: both sessions are
  filled, each by the preference with its own code.
\<close>

theorem assigned_preference_has_session_slot_witness:
  "is_shuffle (length example_prefs) [1, 0]
   \<and> calculate_session_assignments example_sessions example_prefs 5 [1, 0]
       = Inr [Some 0, Some 1]
   \<and> (\<exists>candidate.
         calculate_session_assignments example_sessions example_prefs 5 [1, 0] = Inr candidate
       \<and> length candidate = length example_sessions
       \<and> (\<forall>j<length example_sessions. \<forall>idx. candidate ! j = Some idx \<longrightarrow>
             idx < length example_prefs
           \<and> InstructorPref.encoded_start_time_code (example_prefs ! idx)
               = Session.encoded_start_time_code (example_sessions ! j)))"
proof -
  have h: "is_shuffle (length example_prefs) [1, 0]"
    by code_simp
  have c: "calculate_session_assignments example_sessions example_prefs 5 [1, 0]
             = Inr [Some 0, Some 1]"
    by code_simp
  from h c assigned_preference_has_session_slot [OF h, of example_sessions 5]
  show ?thesis by blast
qed

text \<open>
  Claim C7. In the candidate of every generation call the filled entries are pairwise
  distinct: an index recorded for an earlier session is not recorded again for a later
  one. The list of recorded entries belongs to the call: in every epoch of the search
  loop the candidate is computed by the outer loop started on the empty list, whatever
  the epochs before have recorded.
\<close>

theorem filled_entries_are_distinct:
  assumes "is_shuffle (length list_of_instructor_prefs) indices"
  shows "(\<exists>candidate.
            calculate_session_assignments list_of_session list_of_instructor_prefs replicates
              indices = Inr candidate
          \<and> distinct (filter (\<lambda>entry. entry \<noteq> None) candidate)
          \<and> (\<forall>i j idx. i < j \<and> j < length candidate \<and> candidate ! i = Some idx
                \<longrightarrow> candidate ! j \<noteq> Some idx))
       \<and> search_loop (int (Suc k)) replicates list_of_session list_of_instructor_prefs shuffled
          = (case search_loop (int k) replicates list_of_session list_of_instructor_prefs
                    shuffled of
               Inl e \<Rightarrow> Inl e
             | Inr (best, best_score) \<Rightarrow>
                 (case assign_sessions list_of_instructor_prefs (shuffled k) list_of_session
                         [] of
                    Inl e \<Rightarrow> Inl e
                  | Inr candidate \<Rightarrow>
                      update_best_session_assignment list_of_instructor_prefs best best_score
                        candidate))"
proof -
  from calculate_entries [OF is_shuffle_in_range [OF assms], of list_of_session replicates]
  obtain candidate where
    c: "calculate_session_assignments list_of_session list_of_instructor_prefs replicates
          indices = Inr candidate"
    and l: "length candidate = length list_of_session"
    and e: "\<forall>j<length list_of_session. \<forall>idx. candidate ! j = Some idx \<longrightarrow>
              Some idx \<notin> set (take j candidate)"
    by blast
  have fresh: "\<forall>j<length candidate. candidate ! j \<noteq> None
                 \<longrightarrow> candidate ! j \<notin> set (take j candidate)"
    using e l by auto
  have d: "distinct (filter (\<lambda>entry. entry \<noteq> None) candidate)"
    by (rule distinct_filled [OF fresh])
  have p: "\<forall>i j idx. i < j \<and> j < length candidate \<and> candidate ! i = Some idx
             \<longrightarrow> candidate ! j \<noteq> Some idx"
  proof (intro allI impI notI)
    fix i j idx
    assume a: "i < j \<and> j < length candidate \<and> candidate ! i = Some idx"
      and b: "candidate ! j = Some idx"
    from a b e l have n: "Some idx \<notin> set (take j candidate)"
      by simp
    from a have "take j candidate ! i = Some idx" and "i < length (take j candidate)"
      by simp_all
    then have "Some idx \<in> set (take j candidate)"
      by (metis nth_mem)
    with n show False by contradiction
  qed
  have r: "search_loop (int (Suc k)) replicates list_of_session list_of_instructor_prefs
             shuffled
           = (case search_loop (int k) replicates list_of_session list_of_instructor_prefs
                     shuffled of
                Inl e \<Rightarrow> Inl e
              | Inr (best, best_score) \<Rightarrow>
                  (case assign_sessions list_of_instructor_prefs (shuffled k) list_of_session
                          [] of
                     Inl e \<Rightarrow> Inl e
                   | Inr candidate \<Rightarrow>
                       update_best_session_assignment list_of_instructor_prefs best best_score
                         candidate))"
    unfolding search_loop_Suc calculate_session_assignments_def by (rule refl)
  from c d p r show ?thesis
    by blast
qed

text \<open>The theorem on the example catalogs with the shuffle \<open>[1, 0]\<close>.\<close>

theorem filled_entries_are_distinct_witness:
  "is_shuffle (length example_prefs) [1, 0]
   \<and> calculate_session_assignments example_sessions example_prefs 5 [1, 0]
       = Inr [Some 0, Some 1]
   \<and> (\<exists>candidate.
         calculate_session_assignments example_sessions example_prefs 5 [1, 0] = Inr candidate
       \<and> distinct (filter (\<lambda>entry. entry \<noteq> None) candidate)
       \<and> (\<forall>i j idx. i < j \<and> j < length candidate \<and> candidate ! i = Some idx
             \<longrightarrow> candidate ! j \<noteq> Some idx))"
proof -
  have h: "is_shuffle (length example_prefs) [1, 0]"
    by code_simp
  have c: "calculate_session_assignments example_sessions example_prefs 5 [1, 0]
             = Inr [Some 0, Some 1]"
    by code_simp
  from h c filled_entries_are_distinct [OF h, of example_sessions 5]
  show ?thesis
    by blast
qed

text \<open>
  Claim C10. No filled entry of a generated candidate is the index of a preference
  whose uid is the empty string; and a session is recorded unfilled when every
  preference with the session's code has the empty uid, although the codes are equal.
\<close>

theorem empty_uid_is_never_assigned:
  assumes "is_shuffle (length list_of_instructor_prefs) indices"
  shows "\<exists>candidate.
           calculate_session_assignments list_of_session list_of_instructor_prefs replicates
             indices = Inr candidate
         \<and> length candidate = length list_of_session
         \<and> (\<forall>j<length list_of_session. \<forall>idx. candidate ! j = Some idx \<longrightarrow>
               uid (list_of_instructor_prefs ! idx) \<noteq> [])
         \<and> (\<forall>j<length list_of_session.
               (\<forall>idx<length list_of_instructor_prefs.
                   InstructorPref.encoded_start_time_code (list_of_instructor_prefs ! idx)
                     = Session.encoded_start_time_code (list_of_session ! j)
                   \<longrightarrow> uid (list_of_instructor_prefs ! idx) = [])
               \<longrightarrow> candidate ! j = None)"
proof -
  from calculate_entries [OF is_shuffle_in_range [OF assms], of list_of_session replicates]
  obtain candidate where
    c: "calculate_session_assignments list_of_session list_of_instructor_prefs replicates
          indices = Inr candidate"
    and l: "length candidate = length list_of_session"
    and e: "\<forall>j<length list_of_session. \<forall>idx. candidate ! j = Some idx \<longrightarrow>
              idx < length list_of_instructor_prefs
            \<and> InstructorPref.encoded_start_time_code (list_of_instructor_prefs ! idx)
                = Session.encoded_start_time_code (list_of_session ! j)
            \<and> uid (list_of_instructor_prefs ! idx) \<noteq> []"
    unfolding truthy_try_assign by blast
  have u: "\<forall>j<length list_of_session.
               (\<forall>idx<length list_of_instructor_prefs.
                   InstructorPref.encoded_start_time_code (list_of_instructor_prefs ! idx)
                     = Session.encoded_start_time_code (list_of_session ! j)
                   \<longrightarrow> uid (list_of_instructor_prefs ! idx) = [])
               \<longrightarrow> candidate ! j = None"
  proof (intro allI impI)
    fix j
    assume j: "j < length list_of_session"
      and a: "\<forall>idx<length list_of_instructor_prefs.
                   InstructorPref.encoded_start_time_code (list_of_instructor_prefs ! idx)
                     = Session.encoded_start_time_code (list_of_session ! j)
                   \<longrightarrow> uid (list_of_instructor_prefs ! idx) = []"
    show "candidate ! j = None"
    proof (cases "candidate ! j")
      case None
      then show ?thesis .
    next
      case (Some idx)
      with e j a show ?thesis by blast
    qed
  qed
  from c l e u show ?thesis
    by blast
qed

text \<open>
  The theorem on a catalog whose one preference has the code of the first example
  session and the empty uid: the session is recorded unfilled.
\<close>

theorem empty_uid_is_never_assigned_witness:
  "is_shuffle (length example_prefs_no_uid) [0]
   \<and> InstructorPref.encoded_start_time_code (example_prefs_no_uid ! 0)
       = Session.encoded_start_time_code (example_sessions ! 0)
   \<and> uid (example_prefs_no_uid ! 0) = []
   \<and> calculate_session_assignments example_sessions example_prefs_no_uid 5 [0]
       = Inr [None, None]
   \<and> (\<exists>candidate.
         calculate_session_assignments example_sessions example_prefs_no_uid 5 [0]
           = Inr candidate
       \<and> length candidate = length example_sessions
       \<and> (\<forall>j<length example_sessions. \<forall>idx. candidate ! j = Some idx \<longrightarrow>
             uid (example_prefs_no_uid ! idx) \<noteq> [])
       \<and> (\<forall>j<length example_sessions.
             (\<forall>idx<length example_prefs_no_uid.
                 InstructorPref.encoded_start_time_code (example_prefs_no_uid ! idx)
                   = Session.encoded_start_time_code (example_sessions ! j)
                 \<longrightarrow> uid (example_prefs_no_uid ! idx) = [])
             \<longrightarrow> candidate ! j = None))"
proof -
  have h: "is_shuffle (length example_prefs_no_uid) [0]"
    by code_simp
  have v: "InstructorPref.encoded_start_time_code (example_prefs_no_uid ! 0)
             = Session.encoded_start_time_code (example_sessions ! 0)"
          "uid (example_prefs_no_uid ! 0) = []"
          "calculate_session_assignments example_sessions example_prefs_no_uid 5 [0]
             = Inr [None, None]"
    by code_simp+
  from h v empty_uid_is_never_assigned [OF h, of example_sessions 5]
  show ?thesis
    by blast
qed

section \<open>Scoring\<close>

lemma spec_score_all_unfilled:
  assumes "\<forall>entry\<in>set candidate. entry = None"
  shows "spec_score prefs candidate = - 5 * int (length candidate)"
proof -
  have f: "filter (\<lambda>entry. entry = None) candidate = candidate"
    using assms by (simp add: filter_id_conv)
  have "\<forall>idx\<in>set [0..<length candidate]. \<not> spec_rewarded prefs candidate idx"
  proof
    fix idx assume "idx \<in> set [0..<length candidate]"
    then have "candidate ! idx \<in> set candidate"
      by simp
    with assms have "candidate ! idx = None"
      by blast
    then show "\<not> spec_rewarded prefs candidate idx"
      by (simp add: spec_rewarded_def split: option.splits)
  qed
  then have "filter (spec_rewarded prefs candidate) [0..<length candidate] = []"
    by (simp only: filter_False)
  with f show ?thesis
    by (simp add: spec_score_def)
qed

lemma spec_score_all_filled:
  assumes "None \<notin> set candidate"
  shows "spec_score prefs candidate
           = 2 * int (length (filter (spec_rewarded prefs candidate) [0..<length candidate]))"
proof -
  have "\<forall>entry\<in>set candidate. \<not> entry = None"
    using assms by metis
  then have "filter (\<lambda>entry. entry = None) candidate = []"
    by (simp only: filter_False)
  then show ?thesis
    by (simp add: spec_score_def)
qed

text \<open>
  Claim C5. For every candidate whose filled entries are indices of the preference
  catalog, the score the loop computes is \<open>-5\<close> times the number of unfilled entries
  plus \<open>2\<close> times the number of positions \<open>idx > 0\<close> where the entries at \<open>idx - 1\<close>
  and \<open>idx\<close> are filled and their preferences have the same uid and the same week
  day; it is the score \<open>update_best_session_assignment\<close> returns with the candidate.
  An all-unfilled candidate scores \<open>-5\<close> times its length, and a fully filled candidate
  has a score of at least 0.
\<close>

theorem candidate_score_is_spec_score:
  assumes "\<forall>idx. Some idx \<in> set candidate \<longrightarrow> idx < length list_of_instructor_prefs"
  shows "candidate_score list_of_instructor_prefs candidate
           = Inr (spec_score list_of_instructor_prefs candidate)
       \<and> update_best_session_assignment list_of_instructor_prefs None best_score candidate
           = Inr (Some candidate, spec_score list_of_instructor_prefs candidate)
       \<and> ((\<forall>entry\<in>set candidate. entry = None) \<longrightarrow>
             candidate_score list_of_instructor_prefs candidate
               = Inr (- 5 * int (length candidate)))
       \<and> (None \<notin> set candidate \<longrightarrow>
             (\<exists>score. candidate_score list_of_instructor_prefs candidate = Inr score
                \<and> 0 \<le> score
                \<and> score = 2 * int (length (filter (spec_rewarded list_of_instructor_prefs
                                                     candidate) [0..<length candidate]))))"
proof -
  have s: "candidate_score list_of_instructor_prefs candidate
             = Inr (spec_score list_of_instructor_prefs candidate)"
    by (rule candidate_score_eq [OF assms])
  have u: "update_best_session_assignment list_of_instructor_prefs None best_score candidate
             = Inr (Some candidate, spec_score list_of_instructor_prefs candidate)"
    by (simp add: update_best_session_assignment_def s)
  have a: "(\<forall>entry\<in>set candidate. entry = None) \<longrightarrow>
             candidate_score list_of_instructor_prefs candidate
               = Inr (- 5 * int (length candidate))"
    using s by (simp add: spec_score_all_unfilled)
  have f: "None \<notin> set candidate \<longrightarrow>
             (\<exists>score. candidate_score list_of_instructor_prefs candidate = Inr score
                \<and> 0 \<le> score
                \<and> score = 2 * int (length (filter (spec_rewarded list_of_instructor_prefs
                                                     candidate) [0..<length candidate])))"
    using s by (simp add: spec_score_all_filled)
  from s u a f show ?thesis
    by blast
qed

text \<open>
  The theorem on the example preferences at three candidates: one with a rewarded pair
  and an unfilled entry (score \<open>-3\<close>), the all-unfilled one (score \<open>-10\<close>) and the
  fully filled one (score \<open>2\<close>).
\<close>

theorem candidate_score_is_spec_score_witness:
  "candidate_score example_prefs [Some 0, Some 1, None] = Inr (- 3)
   \<and> set [None, None :: nat option] = {None}
   \<and> candidate_score example_prefs [None, None] = Inr (- 10)
   \<and> None \<notin> set [Some 0, Some (1::nat)]
   \<and> candidate_score example_prefs [Some 0, Some 1] = Inr 2"
proof -
  have h1: "\<forall>idx. Some idx \<in> set [Some 0, Some 1, None] \<longrightarrow> idx < length example_prefs"
    by (simp add: example_prefs_def)
  have h2: "\<forall>idx. Some idx \<in> set [None, None] \<longrightarrow> idx < length example_prefs"
    by simp
  have h3: "\<forall>idx. Some idx \<in> set [Some 0, Some 1] \<longrightarrow> idx < length example_prefs"
    by (simp add: example_prefs_def)
  have v1: "spec_score example_prefs [Some 0, Some 1, None] = - 3"
    by code_simp
  have v3: "spec_score example_prefs [Some 0, Some 1] = 2"
    by code_simp
  from candidate_score_is_spec_score [OF h1] v1
  have c1: "candidate_score example_prefs [Some 0, Some 1, None] = Inr (- 3)"
    by simp
  from candidate_score_is_spec_score [OF h2, of 0]
  have "(\<forall>entry\<in>set [None, None :: nat option]. entry = None) \<longrightarrow>
          candidate_score example_prefs [None, None]
            = Inr (- 5 * int (length [None, None :: nat option]))"
    by blast
  then have c2: "candidate_score example_prefs [None, None] = Inr (- 10)"
    by simp
  from candidate_score_is_spec_score [OF h3] v3
  have c3: "candidate_score example_prefs [Some 0, Some 1] = Inr 2"
    by simp
  from c1 c2 c3 show ?thesis
    by simp
qed

section \<open>The search loop: retention of the best candidate\<close>

text \<open>
  Claim C1 says that the retained pair is replaced only when the candidate's score is
  strictly greater than \<open>best_score\<close>, so that a candidate with a negative score never
  displaces the initial pair. The code at two sessions and an empty preference catalog:
  the only candidate is all-unfilled, its score is \<open>-10\<close>, and after the first epoch it
  is the retained best, with \<open>best_score = -10\<close>.
\<close>

theorem first_candidate_with_negative_score_is_retained:
  "candidate_score [] [None, None] = Inr (- 10)
   \<and> update_best_session_assignment [] None 0 [None, None] = Inr (Some [None, None], - 10)
   \<and> calculate_session_assignments example_sessions [] 5 [] = Inr [None, None]
   \<and> search_loop 1 5 example_sessions [] example_shuffled_empty
       = Inr (Some [None, None], - 10)"
  by code_simp

text \<open>
  Claim C1 as amended. In the first epoch (and only then) no best assignment is
  retained, and the candidate and its score replace the initial pair whatever the
  score is; in every later epoch the retained pair is replaced exactly when the
  candidate's score is strictly greater than \<open>best_score\<close>, and is left unchanged
  otherwise. The state before epoch \<open>k\<close> is the result of the loop run for \<open>k\<close> epochs.
\<close>

theorem best_replaced_on_first_epoch_or_strict_improvement:
  assumes "\<forall>k. is_shuffle (length list_of_instructor_prefs) (shuffled k)"
  shows "\<exists>best best_score candidate score.
           search_loop (int k) replicates list_of_session list_of_instructor_prefs shuffled
             = Inr (best, best_score)
         \<and> (best = None \<longleftrightarrow> k = 0)
         \<and> calculate_session_assignments list_of_session list_of_instructor_prefs replicates
             (shuffled k) = Inr candidate
         \<and> candidate_score list_of_instructor_prefs candidate = Inr score
         \<and> search_loop (int (Suc k)) replicates list_of_session list_of_instructor_prefs
             shuffled
             = Inr (if k = 0 \<or> best_score < score then (Some candidate, score)
                    else (best, best_score))"
  by (rule epoch_step [OF assms])

text \<open>
  The theorem on the example catalogs in the second epoch (\<open>k = 1\<close>): the candidate
  scores 2, which is not more than the retained 2, and the retained pair stays.
\<close>

theorem best_replaced_on_first_epoch_or_strict_improvement_witness:
  "(\<forall>k. is_shuffle (length example_prefs) (example_shuffled k))
   \<and> (\<exists>best best_score candidate score.
         search_loop (int 1) 5 example_sessions example_prefs example_shuffled
           = Inr (best, best_score)
       \<and> (best = None \<longleftrightarrow> (1::nat) = 0)
       \<and> calculate_session_assignments example_sessions example_prefs 5 (example_shuffled 1)
           = Inr candidate
       \<and> candidate_score example_prefs candidate = Inr score
       \<and> search_loop (int (Suc 1)) 5 example_sessions example_prefs example_shuffled
           = Inr (if (1::nat) = 0 \<or> best_score < score then (Some candidate, score)
                  else (best, best_score)))
   \<and> search_loop 1 5 example_sessions example_prefs example_shuffled
       = Inr (Some [Some 0, Some 1], 2)
   \<and> search_loop 2 5 example_sessions example_prefs example_shuffled
       = Inr (Some [Some 0, Some 1], 2)"
proof -
  have v: "search_loop 1 5 example_sessions example_prefs example_shuffled
             = Inr (Some [Some 0, Some 1], 2)"
          "search_loop 2 5 example_sessions example_prefs example_shuffled
             = Inr (Some [Some 0, Some 1], 2)"
    by code_simp+
  from example_shuffled_is_shuffle v
       best_replaced_on_first_epoch_or_strict_improvement
         [OF example_shuffled_is_shuffle, of 1 5 example_sessions]
  show ?thesis
    by blast
qed

text \<open>
  Claim C2 says that \<open>best_score\<close> never decreases across the epochs, starting from its
  initial value 0. The code at two sessions and an empty preference catalog: before
  the first epoch \<open>best_score\<close> is 0, after it \<open>-10\<close>.
\<close>

theorem best_score_drops_below_zero_in_first_epoch:
  "search_loop 0 5 example_sessions [] example_shuffled_empty = Inr (None, 0)
   \<and> search_loop 1 5 example_sessions [] example_shuffled_empty
       = Inr (Some [None, None], - 10)
   \<and> (- 10 :: int) < 0"
  by code_simp

text \<open>
  Claim C2 as amended. From the end of the first epoch on, \<open>best_score\<close> never
  decreases: for \<open>1 \<le> epochs \<le> epochs'\<close> the loop run for \<open>epochs\<close> epochs and the loop
  run for \<open>epochs'\<close> epochs both return, and the score retained by the first is at most
  the score retained by the second.
\<close>

theorem best_score_non_decreasing_after_first_epoch:
  assumes "\<forall>k. is_shuffle (length list_of_instructor_prefs) (shuffled k)"
    and "1 \<le> epochs" and "epochs \<le> epochs'"
  shows "\<exists>best best_score best' best_score'.
           search_loop epochs replicates list_of_session list_of_instructor_prefs shuffled
             = Inr (best, best_score)
         \<and> search_loop epochs' replicates list_of_session list_of_instructor_prefs shuffled
             = Inr (best', best_score')
         \<and> best_score \<le> best_score'"
proof -
  from assms(2,3) have k: "1 \<le> nat epochs" and e: "int (nat epochs) = epochs"
    and e': "int (nat epochs + (nat epochs' - nat epochs)) = epochs'"
    by simp_all
  from search_loop_mono [OF assms(1) k, of replicates list_of_session "nat epochs' - nat epochs"]
  show ?thesis
    unfolding e e' .
qed

text \<open>The theorem on the example catalogs, after one epoch and after three.\<close>

theorem best_score_non_decreasing_after_first_epoch_witness:
  "(\<forall>k. is_shuffle (length example_prefs) (example_shuffled k))
   \<and> (1::int) \<le> 1 \<and> (1::int) \<le> 3
   \<and> (\<exists>best best_score best' best_score'.
         search_loop 1 5 example_sessions example_prefs example_shuffled
           = Inr (best, best_score)
       \<and> search_loop 3 5 example_sessions example_prefs example_shuffled
           = Inr (best', best_score')
       \<and> best_score \<le> best_score')"
proof -
  have a: "(1::int) \<le> 1" and b: "(1::int) \<le> 3"
    by simp_all
  from example_shuffled_is_shuffle a b
       best_score_non_decreasing_after_first_epoch
         [OF example_shuffled_is_shuffle a b, of 5 example_sessions]
  show ?thesis
    by blast
qed

end
